theory Spec2Isabelle
  imports Main
begin

section \<open>NuclideTextBuffer: the state of a remote-backed text buffer\<close>

text \<open>
  The class \<open>NuclideTextBuffer\<close> (nuclide-remote-connection/lib/NuclideTextBuffer.js)
  extends Atom's \<open>TextBuffer\<close>. Its fields become a record, every method a function
  from the state to the new state, and every exception a value. A JavaScript field that
  holds a string, \<open>null\<close> or \<open>undefined\<close> keeps the three cases apart, since the
  code compares such fields with \<open>===\<close>.
\<close>

datatype contents = Undefined | Null | Str string

text \<open>
  The exceptions the code throws or receives: a plain \<open>Error\<close> with its message, the
  \<open>RpcTimeoutError\<close> that the catch branch of \<open>saveAs\<close> tells apart, the error of a
  failed \<open>invariant\<close>, and the \<open>TypeError\<close> of a call on \<open>undefined\<close>.
\<close>

datatype exn = Error string | RpcTimeoutError string | AssertionError string | TypeError string

fun message :: "exn \<Rightarrow> string" where
  "message (Error m) = m"
| "message (RpcTimeoutError m) = m"
| "message (AssertionError m) = m"
| "message (TypeError m) = m"

text \<open>
  Everything the buffer sends to the outside, in order: events of its emitter, calls of
  \<open>emitModifiedStatusChanged\<close>, the write issued on the remote file, log lines,
  notifications, analytics, and the calls into the base class that replace the text.
\<close>

datatype event =
    DidChangePath "string option"
  | WillSave string
  | DidSave string
  | DidConflict
  | WillThrowWatchError string
  | ModifiedStatusChanged bool
  | FileWrite string string
  | LogError string
  | LogFatal string
  | OpenUntitled string
  | AddError string
  | Track string bool
  | SetText string
  | SetTextViaDiff string
  | Reload
  | Destroy

text \<open>
  \<open>file\<close> is the path of the \<open>RemoteFile\<close> the buffer is bound to (\<open>None\<close> for
  \<open>null\<close>); \<open>fileSubscriptions\<close> is \<open>None\<close> before the first subscription,
  \<open>Some True\<close> while the subscriptions are live and \<open>Some False\<close> once disposed;
  \<open>exists\<close> is the field \<open>_exists\<close>, \<open>saveID\<close> is \<open>_saveID\<close> and
  \<open>pendingSaveContents\<close> is \<open>_pendingSaveContents\<close>;
  \<open>shouldDestroyOnFileDelete\<close> is \<open>None\<close> when the callback is absent and
  \<open>Some b\<close> when it is present and answers \<open>b\<close>; \<open>emitted\<close> is the trace of
  events, oldest first.
\<close>

record buffer =
  file' :: "string option"
  fileSubscriptions :: "bool option"
  getText :: string
  cachedDiskContents :: contents
  conflict :: bool
  exists :: bool
  saveID :: nat
  pendingSaveContents :: contents
  wasModifiedBeforeRemove :: bool
  loaded :: bool
  destroyed :: bool
  shouldDestroyOnFileDelete :: "bool option"
  emitted :: "event list"

definition emit :: "event \<Rightarrow> buffer \<Rightarrow> buffer" where
  "emit e s = s\<lparr>emitted := emitted s @ [e]\<rparr>"

text \<open>\<open>emitModifiedStatusChanged\<close> of the base class: the call is recorded.\<close>

definition emitModifiedStatusChanged :: "bool \<Rightarrow> buffer \<Rightarrow> buffer" where
  "emitModifiedStatusChanged b s = emit (ModifiedStatusChanged b) s"

text \<open>\<open>getPath\<close> and \<open>isEmpty\<close> of the base class.\<close>

definition getPath :: "buffer \<Rightarrow> string option" where
  "getPath s = file' s"

definition isEmpty :: "buffer \<Rightarrow> bool" where
  "isEmpty s = (getText s = [])"

subsection \<open>setPath\<close>

text \<open>
  \<open>setPath\<close> of a constructed buffer (\<open>_connection\<close> is set; the connection's
  translation between remote paths and URIs is taken as the identity). An unchanged path
  returns at once; a non-empty path rebinds the existing file or creates one and
  subscribes to it (\<open>subscribeToFile\<close> disposes the old subscriptions and installs the
  three handlers below); the empty path drops the file. Then \<open>did-change-path\<close> is
  emitted.
\<close>

definition setPath :: "string \<Rightarrow> buffer \<Rightarrow> buffer" where
  "setPath filePath s =
     (if Some filePath = getPath s then s
      else
        let s' = (if filePath \<noteq> [] then
                    (case file' s of
                       Some f \<Rightarrow> s\<lparr>file' := Some filePath\<rparr>
                     | None \<Rightarrow> s\<lparr>file' := Some filePath, fileSubscriptions := Some True\<rparr>)
                  else s\<lparr>file' := None\<rparr>)
        in emit (DidChangePath (getPath s')) s')"

subsection \<open>saveAs\<close>

text \<open>
  \<open>saveAs\<close> is an async function with one \<open>await\<close>, on the write. \<open>saveAs_begin\<close>
  is the part before the \<open>await\<close>: it throws on an empty path, or reaches the write and
  suspends (\<open>Inr (Some toSaveContents)\<close>), or fails the \<open>invariant\<close> inside the
  \<open>try\<close> and runs the catch branch. \<open>saveAs_resume\<close> is the part after the
  \<open>await\<close>, run on the state found then, with the outcome of the write; it returns
  how the call ends and the buffer it leaves, and \<open>saveAs_settle\<close> is that buffer.
\<close>

text \<open>
  log4js is not part of the sources. Its level methods (\<open>logger.error\<close>,
  \<open>logger.fatal\<close>) begin by reading \<open>this.isLevelEnabled\<close>. The catch branch takes
  the chosen method off the logger and calls it with no receiver, so the call throws a
  \<open>TypeError\<close> before anything is logged. \<open>level\<close> is the method that was chosen.
\<close>

definition logFunction :: "(string \<Rightarrow> event) \<Rightarrow> string \<Rightarrow> buffer \<Rightarrow> (exn + unit) \<times> buffer" where
  "logFunction level msg s =
     (Inl (TypeError ''Cannot read property 'isLevelEnabled' of undefined''), s)"

text \<open>
  The catch branch. An exception thrown inside it leaves \<open>saveAs\<close>: the statements
  after the \<open>try\<close> do not run.
\<close>

definition saveAs_catch :: "string \<Rightarrow> string \<Rightarrow> exn \<Rightarrow> buffer \<Rightarrow> (exn + unit) \<times> buffer" where
  "saveAs_catch filePath toSaveContents e s =
     (case logFunction (case e of RpcTimeoutError _ \<Rightarrow> LogError | _ \<Rightarrow> LogFatal)
             ''Failed to save remote file.'' s of
        (Inl t, s1) \<Rightarrow> (Inl t, s1)
      | (Inr u, s1) \<Rightarrow>
          (let msg = message e;
               msg' = (if destroyed s1
                       then msg @ ''<br><br>Opening a new tab with your unsaved changes.''
                       else msg);
               s2 = (if destroyed s1 then emit (OpenUntitled toSaveContents) s1 else s1)
           in (Inr (),
               emit (AddError (''Failed to save remote file '' @ filePath @ '': '' @ msg')) s2)))"

definition saveAs_tail :: "string \<Rightarrow> bool \<Rightarrow> buffer \<Rightarrow> buffer" where
  "saveAs_tail filePath success s =
     emit (Track filePath success) (s\<lparr>pendingSaveContents := Null\<rparr>)"

definition saveAs_begin :: "string \<Rightarrow> buffer \<Rightarrow> (exn + string option) \<times> buffer" where
  "saveAs_begin filePath s =
     (if filePath = [] then (Inl (Error ''Can't save buffer with no file path''), s)
      else
        let s1 = emit (WillSave filePath) s;
            s2 = setPath filePath s1;
            toSaveContents = getText s2
        in case file' s2 of
             None \<Rightarrow>
               (case saveAs_catch filePath toSaveContents
                       (AssertionError ''Cannot save an null file!'') s2 of
                  (Inl t, s3) \<Rightarrow> (Inl t, s3)
                | (Inr u, s3) \<Rightarrow> (Inr None, saveAs_tail filePath False s3))
           | Some f \<Rightarrow>
               (Inr (Some toSaveContents),
                emit (FileWrite f toSaveContents)
                  (s2\<lparr>pendingSaveContents := Str toSaveContents\<rparr>)))"

definition saveAs_resume :: "string \<Rightarrow> string \<Rightarrow> exn + unit \<Rightarrow> buffer \<Rightarrow> (exn + unit) \<times> buffer" where
  "saveAs_resume filePath toSaveContents w s =
     (case w of
        Inr _ \<Rightarrow>
          (Inr (),
           saveAs_tail filePath True
             (emit (DidSave filePath)
                (emitModifiedStatusChanged False
                   (s\<lparr>cachedDiskContents := Str toSaveContents,
                      saveID := saveID s + 1,
                      conflict := False\<rparr>))))
      | Inl e \<Rightarrow>
          (case saveAs_catch filePath toSaveContents e s of
             (Inl t, s1) \<Rightarrow> (Inl t, s1)
           | (Inr u, s1) \<Rightarrow> (Inr (), saveAs_tail filePath False s1)))"

definition saveAs_settle :: "string \<Rightarrow> string \<Rightarrow> exn + unit \<Rightarrow> buffer \<Rightarrow> buffer" where
  "saveAs_settle filePath toSaveContents w s = snd (saveAs_resume filePath toSaveContents w s)"

text \<open>
  The whole call: \<open>w\<close> is the outcome of the remote write and \<open>env\<close> is whatever
  else happened to the buffer while the write was in flight.
\<close>

definition saveAs :: "(buffer \<Rightarrow> buffer) \<Rightarrow> exn + unit \<Rightarrow> string \<Rightarrow> buffer
    \<Rightarrow> (exn + unit) \<times> buffer" where
  "saveAs env w filePath s =
     (case saveAs_begin filePath s of
        (Inl e, s') \<Rightarrow> (Inl e, s')
      | (Inr None, s') \<Rightarrow> (Inr (), s')
      | (Inr (Some toSaveContents), s') \<Rightarrow> saveAs_resume filePath toSaveContents w (env s'))"

subsection \<open>Refreshing the cached disk contents\<close>

definition updateCachedDiskContentsSync :: "buffer \<Rightarrow> (exn + unit) \<times> buffer" where
  "updateCachedDiskContentsSync s =
     (Inl (Error ''updateCachedDiskContentsSync isn't supported in NuclideTextBuffer''), s)"

text \<open>
  Modelled from the spec: \<open>TextBuffer.prototype.updateCachedDiskContents\<close>, the base
  method the override awaits, is not part of the sources. It reads the remote file and,
  when the read succeeds, stores what it read in \<open>cachedDiskContents\<close>; a failed read
  changes nothing and rejects. \<open>r\<close> is the outcome of the read.
\<close>

definition super_updateCachedDiskContents :: "exn + string \<Rightarrow> buffer \<Rightarrow> (exn + unit) \<times> buffer" where
  "super_updateCachedDiskContents r s =
     (case r of
        Inr c \<Rightarrow> (Inr (), s\<lparr>cachedDiskContents := Str c\<rparr>)
      | Inl e \<Rightarrow> (Inl e, s))"

definition updateCachedDiskContents :: "exn + string \<Rightarrow> buffer \<Rightarrow> (exn + unit) \<times> buffer" where
  "updateCachedDiskContents r s =
     (case super_updateCachedDiskContents r s of
        (Inr u, s') \<Rightarrow> (Inr (), s'\<lparr>exists := True\<rparr>)
      | (Inl e, s') \<Rightarrow> (Inl e, s'\<lparr>exists := False\<rparr>))"

subsection \<open>Replacing the text\<close>

text \<open>
  The base class (Atom's \<open>TextBuffer\<close>) is not part of the sources. Its \<open>setText\<close>
  replaces the text wholesale, its \<open>setTextViaDiff\<close> reaches the same text by line-level
  diffing; its \<open>destroy\<close>, on a buffer not yet destroyed, marks it destroyed,
  disposes the file subscriptions and empties the text. Each call is recorded in the
  trace.
\<close>

definition setText :: "string \<Rightarrow> buffer \<Rightarrow> buffer" where
  "setText newText s = emit (SetText newText) (s\<lparr>getText := newText\<rparr>)"

definition super_setTextViaDiff :: "string \<Rightarrow> buffer \<Rightarrow> buffer" where
  "super_setTextViaDiff newText s = emit (SetTextViaDiff newText) (s\<lparr>getText := newText\<rparr>)"

definition destroy :: "buffer \<Rightarrow> buffer" where
  "destroy s =
     (if destroyed s then s
      else emit Destroy
             (s\<lparr>destroyed := True,
                fileSubscriptions :=
                  (if fileSubscriptions s \<noteq> None then Some False else fileSubscriptions s),
                getText := []\<rparr>))"

text \<open>
  Modelled from the spec: \<open>reload\<close> of the base class is not part of the sources; it
  replaces the text with \<open>cachedDiskContents\<close>. The change handler calls it right after
  a successful refresh, when \<open>cachedDiskContents\<close> is a string.
\<close>

definition reload :: "buffer \<Rightarrow> buffer" where
  "reload s =
     (case cachedDiskContents s of
        Str c \<Rightarrow> emit Reload (s\<lparr>getText := c\<rparr>)
      | _ \<Rightarrow> emit Reload s)"

text \<open>
  Modelled from the spec: \<open>countOccurrences\<close> (nuclide-commons/string) is not part of
  the sources; it counts how often a character occurs in a string.
\<close>

fun countOccurrences :: "string \<Rightarrow> char \<Rightarrow> nat" where
  "countOccurrences [] c = 0"
| "countOccurrences (x # xs) c = (if x = c then 1 else 0) + countOccurrences xs c"

text \<open>
  Modelled from the spec: \<open>getLineCount\<close> of the base class is not part of the
  sources. A text has one line more than it has line feeds.
\<close>

definition lineCount :: "string \<Rightarrow> nat" where
  "lineCount t = Suc (countOccurrences t (CHR 0x0A))"

definition getLineCount :: "buffer \<Rightarrow> nat" where
  "getLineCount s = lineCount (getText s)"

definition DIFF_LINE_LIMIT :: nat where
  "DIFF_LINE_LIMIT = 10000"

definition setTextViaDiff :: "string \<Rightarrow> buffer \<Rightarrow> buffer" where
  "setTextViaDiff newText s =
     (if getLineCount s > DIFF_LINE_LIMIT \<or> countOccurrences newText (CHR 0x0A) > DIFF_LINE_LIMIT
      then setText newText s
      else super_setTextViaDiff newText s)"

subsection \<open>The handlers installed by subscribeToFile\<close>

definition isModified :: "buffer \<Rightarrow> bool" where
  "isModified s =
     (if \<not> loaded s then False
      else case file' s of
             Some f \<Rightarrow>
               (if exists s then Str (getText s) \<noteq> cachedDiskContents s
                else (if wasModifiedBeforeRemove s then \<not> isEmpty s else False))
           | None \<Rightarrow> \<not> isEmpty s)"

definition maybeDestroy :: "buffer \<Rightarrow> buffer" where
  "maybeDestroy s =
     (if shouldDestroyOnFileDelete s = None \<or> shouldDestroyOnFileDelete s = Some True
      then destroy s
      else
        let s1 = (if fileSubscriptions s \<noteq> None then s\<lparr>fileSubscriptions := Some False\<rparr> else s);
            s2 = s1\<lparr>conflict := False, cachedDiskContents := Null\<rparr>
        in emitModifiedStatusChanged (\<not> isEmpty s2) s2)"

text \<open>
  The \<open>onDidChange\<close> handler is async with one \<open>await\<close>, on
  \<open>updateCachedDiskContents\<close>. \<open>onDidChange_begin\<close> runs up to the \<open>await\<close> and
  returns \<open>previousContents\<close> and \<open>previousSaveID\<close>; \<open>onDidChange_resume\<close> runs
  after a successful refresh, on the state found then.
\<close>

definition onDidChange_begin :: "buffer \<Rightarrow> (contents \<times> nat) \<times> buffer" where
  "onDidChange_begin s =
     (let m = isModified s;
          s1 = emitModifiedStatusChanged m s;
          s2 = (if m then s1\<lparr>conflict := True\<rparr> else s1)
      in ((cachedDiskContents s2, saveID s2), s2))"

definition onDidChange_resume :: "contents \<times> nat \<Rightarrow> buffer \<Rightarrow> buffer" where
  "onDidChange_resume k s =
     (case k of (previousContents, previousSaveID) \<Rightarrow>
        if saveID s \<noteq> previousSaveID \<or>
           previousContents = cachedDiskContents s \<or>
           pendingSaveContents s = cachedDiskContents s
        then s\<lparr>conflict := False\<rparr>
        else if conflict s then emit DidConflict s
        else reload s)"

text \<open>
  The whole handler: \<open>r\<close> is the outcome of the remote read and \<open>env\<close> is whatever
  else happened to the buffer while the read was in flight. A failed read leaves the
  handler by the exception.
\<close>

definition onDidChange :: "(buffer \<Rightarrow> buffer) \<Rightarrow> exn + string \<Rightarrow> buffer \<Rightarrow> (exn + unit) \<times> buffer" where
  "onDidChange env r s =
     (case onDidChange_begin s of
        (k, s1) \<Rightarrow>
          (case updateCachedDiskContents r (env s1) of
             (Inl e, s2) \<Rightarrow> (Inl e, s2)
           | (Inr u, s2) \<Rightarrow> (Inr (), onDidChange_resume k s2)))"

text \<open>
  The \<open>onDidDelete\<close> handler is synchronous. When the text is modified it starts
  \<open>updateCachedDiskContents\<close> without awaiting it: the first component of the result
  says whether that refresh was started.
\<close>

definition onDidDelete :: "buffer \<Rightarrow> bool \<times> buffer" where
  "onDidDelete s =
     (let s1 = s\<lparr>exists := False\<rparr>;
          modified = (Str (getText s1) \<noteq> cachedDiskContents s1);
          s2 = s1\<lparr>wasModifiedBeforeRemove := modified\<rparr>
      in if modified then (True, s2) else (False, maybeDestroy s2))"

definition onWillThrowWatchError :: "string \<Rightarrow> buffer \<Rightarrow> buffer" where
  "onWillThrowWatchError errorObject s = emit (WillThrowWatchError errorObject) s"

subsection \<open>The operations on a buffer\<close>

text \<open>
  Every step that changes a buffer: the methods of the class, the two halves of each
  async method, the handlers, and the base-class calls that replace the text or destroy
  the buffer.
\<close>

datatype operation =
    OpSetPath string
  | OpSaveAsBegin string
  | OpSaveAsSettle string string "exn + unit"
  | OpUpdateCachedDiskContentsSync
  | OpUpdateCachedDiskContents "exn + string"
  | OpSetTextViaDiff string
  | OpSetText string
  | OpChangeBegin
  | OpChangeResume contents nat
  | OpDelete
  | OpWatchError string
  | OpMaybeDestroy
  | OpReload
  | OpDestroy

text \<open>
  The steps that settle a change or delete notification. They are the only ones that
  clear \<open>conflict\<close> without completing a save.
\<close>

fun reconciles :: "operation \<Rightarrow> bool" where
  "reconciles (OpChangeResume c n) = True"
| "reconciles OpDelete = True"
| "reconciles OpMaybeDestroy = True"
| "reconciles op = False"

fun perform :: "operation \<Rightarrow> buffer \<Rightarrow> buffer" where
  "perform (OpSetPath p) s = setPath p s"
| "perform (OpSaveAsBegin p) s = snd (saveAs_begin p s)"
| "perform (OpSaveAsSettle p c w) s = saveAs_settle p c w s"
| "perform OpUpdateCachedDiskContentsSync s = snd (updateCachedDiskContentsSync s)"
| "perform (OpUpdateCachedDiskContents r) s = snd (updateCachedDiskContents r s)"
| "perform (OpSetTextViaDiff t) s = setTextViaDiff t s"
| "perform (OpSetText t) s = setText t s"
| "perform OpChangeBegin s = snd (onDidChange_begin s)"
| "perform (OpChangeResume c n) s = onDidChange_resume (c, n) s"
| "perform OpDelete s = snd (onDidDelete s)"
| "perform (OpWatchError e) s = onWillThrowWatchError e s"
| "perform OpMaybeDestroy s = maybeDestroy s"
| "perform OpReload s = reload s"
| "perform OpDestroy s = destroy s"

section \<open>ConfigCache: the nearest ancestor directory holding a marker file\<close>

text \<open>
  A path is the list of its components below the filesystem root; the root is the empty
  list and the parent of a path is the path without its last component. A filesystem
  is given by the directories that contain the marker file and by the paths that name
  files. The cache maps a directory to its resolved answer: \<open>Some d\<close> for the
  configuration directory \<open>d\<close>, \<open>None\<close> for "none found".
\<close>

type_synonym path = "string list"

record filesystem =
  markerDirs :: "path list"
  files :: "path list"

type_synonym configCache = "path \<rightharpoonup> path option"

definition hasMarker :: "filesystem \<Rightarrow> path \<Rightarrow> bool" where
  "hasMarker fs d = (d \<in> set (markerDirs fs))"

definition isFile :: "filesystem \<Rightarrow> path \<Rightarrow> bool" where
  "isFile fs p = (p \<in> set (files fs))"

fun recordAll :: "path list \<Rightarrow> path option \<Rightarrow> configCache \<Rightarrow> configCache" where
  "recordAll [] ans c = c"
| "recordAll (d # ds) ans c = recordAll ds ans (c(d \<mapsto> ans))"

text \<open>
  Modelled from the spec: \<open>ConfigCache.getConfigDir\<close> (nuclide-commons/ConfigCache) is
  not part of the sources, only its test is. The walk goes upward one directory at a
  time. At each directory it first consults the cache and returns a resolved answer at
  once; otherwise it checks the marker file there and, when found, records that
  directory as the answer for every directory visited so far and returns it; at the
  root with no marker it records "none" for every directory visited.
\<close>

function walk :: "filesystem \<Rightarrow> configCache \<Rightarrow> path \<Rightarrow> path list \<Rightarrow> path option \<times> configCache" where
  "walk fs c dir visited =
     (case c dir of
        Some ans \<Rightarrow> (ans, c)
      | None \<Rightarrow>
          if hasMarker fs dir then (Some dir, recordAll (dir # visited) (Some dir) c)
          else if dir = [] then (None, recordAll (dir # visited) None c)
          else walk fs c (butlast dir) (dir # visited))"
  by pat_completeness auto
termination
  by (relation "measure (\<lambda>(fs, c, dir, visited). length dir)") auto

text \<open>
  Modelled from the spec: the start path may name a file or a directory; if it names a
  file, the search begins at its parent directory.
\<close>

definition getConfigDir :: "filesystem \<Rightarrow> configCache \<Rightarrow> path \<Rightarrow> path option \<times> configCache" where
  "getConfigDir fs c startPath =
     walk fs c (if isFile fs startPath then butlast startPath else startPath) []"

text \<open>
  The answer the cache stands for: the nearest directory at or above \<open>d\<close> that contains
  the marker file. A cache is consistent with a filesystem when every answer it holds
  is that one.
\<close>

function nearest :: "filesystem \<Rightarrow> path \<Rightarrow> path option" where
  "nearest fs d =
     (if hasMarker fs d then Some d
      else if d = [] then None
      else nearest fs (butlast d))"
  by pat_completeness auto
termination
  by (relation "measure (\<lambda>(fs, d). length d)") auto

definition cacheConsistent :: "filesystem \<Rightarrow> configCache \<Rightarrow> bool" where
  "cacheConsistent fs c = (\<forall>d ans. c d = Some ans \<longrightarrow> ans = nearest fs d)"

section \<open>States used in the statements\<close>

text \<open>
  The state on which the second half of an async method runs: the state its first half
  left, after whatever else happened during the \<open>await\<close>.
\<close>

definition saveAs_awaited :: "(buffer \<Rightarrow> buffer) \<Rightarrow> string \<Rightarrow> buffer \<Rightarrow> buffer" where
  "saveAs_awaited env filePath s = env (snd (saveAs_begin filePath s))"

definition onDidChange_awaited :: "(buffer \<Rightarrow> buffer) \<Rightarrow> buffer \<Rightarrow> buffer" where
  "onDidChange_awaited env s = env (snd (onDidChange_begin s))"

text \<open>
  A loaded buffer bound to a remote file, in step with the disk; the same buffer with
  unsaved edits; and the same edited buffer after a failed refresh has cleared
  \<open>_exists\<close>.
\<close>

definition cleanBuffer :: buffer where
  "cleanBuffer =
     \<lparr>file' = Some ''/remote/a.txt'', fileSubscriptions = Some True, getText = ''one'',
      cachedDiskContents = Str ''one'', conflict = False, exists = True, saveID = 0,
      pendingSaveContents = Null, wasModifiedBeforeRemove = False, loaded = True,
      destroyed = False, shouldDestroyOnFileDelete = None, emitted = []\<rparr>"

definition editedBuffer :: buffer where
  "editedBuffer = cleanBuffer\<lparr>getText := ''one two''\<rparr>"

definition staleBuffer :: buffer where
  "staleBuffer = editedBuffer\<lparr>exists := False\<rparr>"

text \<open>
  A text of 10001 lines: 10000 line feeds and a last line without one.
\<close>

definition manyLines :: string where
  "manyLines = replicate 10000 (CHR 0x0A) @ ''x''"

text \<open>
  Filesystems for the directory cache: one with the marker file in \<open>/a\<close> and in
  \<open>/a/b\<close>; one with the marker file in \<open>/a\<close> only and a file \<open>/a/b/f\<close>; and
  the fixture tree of the repository's test, with the marker file in
  \<open>fixtures/ConfigCache\<close>.
\<close>

definition nestedMarkers :: filesystem where
  "nestedMarkers = \<lparr>markerDirs = [[''a''], [''a'', ''b'']], files = []\<rparr>"

definition oneMarker :: filesystem where
  "oneMarker = \<lparr>markerDirs = [[''a'']], files = [[''a'', ''b'', ''f'']]\<rparr>"

definition fixtures :: filesystem where
  "fixtures =
     \<lparr>markerDirs = [[''fixtures'', ''ConfigCache'']],
      files = [[''fixtures'', ''ConfigCache'', ''file''],
               [''fixtures'', ''ConfigCache'', ''testFolder'', ''file'']]\<rparr>"

section \<open>Properties of the buffer\<close>

subsection \<open>What emit and setPath leave alone\<close>

lemma emitted_emit [simp]: "emitted (emit e s) = emitted s @ [e]"
  by (simp add: emit_def)

lemma emit_fields [simp]:
  "file' (emit e s) = file' s" "getText (emit e s) = getText s"
  "cachedDiskContents (emit e s) = cachedDiskContents s" "conflict (emit e s) = conflict s"
  "exists (emit e s) = exists s" "saveID (emit e s) = saveID s"
  "pendingSaveContents (emit e s) = pendingSaveContents s"
  "wasModifiedBeforeRemove (emit e s) = wasModifiedBeforeRemove s"
  "loaded (emit e s) = loaded s" "destroyed (emit e s) = destroyed s"
  "shouldDestroyOnFileDelete (emit e s) = shouldDestroyOnFileDelete s"
  "fileSubscriptions (emit e s) = fileSubscriptions s"
  by (simp_all add: emit_def)

lemma setPath_fields [simp]:
  "getText (setPath p s) = getText s"
  "cachedDiskContents (setPath p s) = cachedDiskContents s" "conflict (setPath p s) = conflict s"
  "exists (setPath p s) = exists s" "saveID (setPath p s) = saveID s"
  "pendingSaveContents (setPath p s) = pendingSaveContents s"
  "destroyed (setPath p s) = destroyed s"
  by (simp_all add: setPath_def Let_def split: option.splits)

lemma setPath_file: "p \<noteq> [] \<Longrightarrow> file' (setPath p s) = Some p"
  by (auto simp: setPath_def getPath_def Let_def split: option.splits)

text \<open>
  With a non-empty path \<open>setPath\<close> always leaves a file behind, so the \<open>invariant\<close>
  of \<open>saveAs\<close> holds and the call reaches the write.
\<close>

lemma saveAs_begin_nonempty:
  "p \<noteq> [] \<Longrightarrow> saveAs_begin p s =
     (Inr (Some (getText s)),
      emit (FileWrite p (getText s))
        ((setPath p (emit (WillSave p) s))\<lparr>pendingSaveContents := Str (getText s)\<rparr>))"
  by (simp add: saveAs_begin_def Let_def setPath_file)

lemma saveID_perform: "saveID s \<le> saveID (perform op s)"
  by (cases op)
     (auto simp: saveAs_begin_def saveAs_settle_def saveAs_resume_def saveAs_tail_def
        saveAs_catch_def logFunction_def
        updateCachedDiskContentsSync_def updateCachedDiskContents_def
        super_updateCachedDiskContents_def setTextViaDiff_def setText_def
        super_setTextViaDiff_def onDidChange_begin_def onDidChange_resume_def onDidDelete_def
        onWillThrowWatchError_def maybeDestroy_def reload_def destroy_def
        emitModifiedStatusChanged_def Let_def
        split: sum.splits option.splits contents.splits if_splits prod.splits)

text \<open>
  Edits, saves and refreshes keep a raised \<open>conflict\<close> unless a save completes.
\<close>

lemma conflict_kept_outside_reconciliation:
  "conflict s \<Longrightarrow> \<not> reconciles op \<Longrightarrow> saveID (perform op s) = saveID s \<Longrightarrow>
   conflict (perform op s)"
  by (cases op)
     (auto simp: saveAs_begin_def saveAs_settle_def saveAs_resume_def saveAs_tail_def
        saveAs_catch_def logFunction_def
        updateCachedDiskContentsSync_def updateCachedDiskContents_def
        super_updateCachedDiskContents_def setTextViaDiff_def setText_def
        super_setTextViaDiff_def onDidChange_begin_def
        onWillThrowWatchError_def reload_def destroy_def
        emitModifiedStatusChanged_def Let_def
        split: sum.splits option.splits contents.splits if_splits prod.splits)

subsection \<open>updateCachedDiskContentsSync\<close>

text \<open>
  C10. The synchronous refresh throws on every call and changes nothing: the buffer
  after the call is the buffer before it.
\<close>

theorem updateCachedDiskContentsSync_throws:
  "updateCachedDiskContentsSync s =
     (Inl (Error ''updateCachedDiskContentsSync isn't supported in NuclideTextBuffer''), s)"
  by (simp add: updateCachedDiskContentsSync_def)

subsection \<open>saveAs\<close>

text \<open>
  C6. A save with the empty path fails at once with the error of the first check. The
  buffer is returned as it was: no will-save was emitted, the path was not rebound and
  no write was issued, whatever the write would have answered and whatever else goes on.
\<close>

theorem saveAs_empty_path_rejected:
  "saveAs env w [] s = (Inl (Error ''Can't save buffer with no file path''), s)"
  by (simp add: saveAs_def saveAs_begin_def)

text \<open>
  C3. A save to a non-empty path writes the text of the buffer. When the write
  succeeds, \<open>cachedDiskContents\<close> is that text, \<open>conflict\<close> is false,
  \<open>pendingSaveContents\<close> is \<open>null\<close>, and \<open>_saveID\<close> is one more than it was when
  the write came back; the first half of the save leaves \<open>_saveID\<close> alone, so with
  nothing else going on it is one more than at the start; and no operation ever lowers
  it.
\<close>

theorem saveAs_success_state:
  assumes "filePath \<noteq> []"
  shows "fst (saveAs_begin filePath s) = Inr (Some (getText s)) \<and>
         FileWrite filePath (getText s) \<in> set (emitted (snd (saveAs_begin filePath s))) \<and>
         saveID (snd (saveAs_begin filePath s)) = saveID s \<and>
         fst (saveAs env (Inr ()) filePath s) = Inr () \<and>
         cachedDiskContents (snd (saveAs env (Inr ()) filePath s)) = Str (getText s) \<and>
         \<not> conflict (snd (saveAs env (Inr ()) filePath s)) \<and>
         saveID (snd (saveAs env (Inr ()) filePath s)) = saveID (saveAs_awaited env filePath s) + 1 \<and>
         saveID (snd (saveAs (\<lambda>t. t) (Inr ()) filePath s)) = saveID s + 1 \<and>
         pendingSaveContents (snd (saveAs env (Inr ()) filePath s)) = Null \<and>
         (\<forall>op t. saveID t \<le> saveID (perform op t))"
  using assms
  by (simp add: saveAs_begin_nonempty saveAs_def saveAs_awaited_def saveAs_resume_def
      saveAs_tail_def emitModifiedStatusChanged_def saveID_perform)

theorem saveAs_success_state_witness:
  "''/remote/b.txt'' \<noteq> [] \<and>
   cachedDiskContents (snd (saveAs (\<lambda>t. t) (Inr ()) ''/remote/b.txt'' editedBuffer)) = Str ''one two'' \<and>
   \<not> conflict (snd (saveAs (\<lambda>t. t) (Inr ()) ''/remote/b.txt'' editedBuffer)) \<and>
   saveID (snd (saveAs (\<lambda>t. t) (Inr ()) ''/remote/b.txt'' editedBuffer)) = 1 \<and>
   pendingSaveContents (snd (saveAs (\<lambda>t. t) (Inr ()) ''/remote/b.txt'' editedBuffer)) = Null"
  using saveAs_success_state [of "''/remote/b.txt''" editedBuffer "\<lambda>t. t"]
  by (simp add: saveAs_awaited_def editedBuffer_def cleanBuffer_def)

text \<open>
  The catch branch of \<open>saveAs\<close> always leaves by the \<open>TypeError\<close> of its first
  statement, so a save whose write fails rejects, on the buffer found when the write
  came back: nothing is reported and \<open>_pendingSaveContents\<close> still holds the text that
  was being saved.
\<close>

lemma saveAs_catch_throws:
  "saveAs_catch filePath toSaveContents e s =
     (Inl (TypeError ''Cannot read property 'isLevelEnabled' of undefined''), s)"
  by (simp add: saveAs_catch_def logFunction_def)

lemma saveAs_failure_rejects:
  "filePath \<noteq> [] \<Longrightarrow>
   saveAs env (Inl e) filePath s =
     (Inl (TypeError ''Cannot read property 'isLevelEnabled' of undefined''),
      saveAs_awaited env filePath s)"
  by (simp add: saveAs_begin_nonempty saveAs_def saveAs_awaited_def saveAs_resume_def
      saveAs_catch_throws)

text \<open>
  C7. The edited buffer is saved to its own path and the write times out. The catch
  branch calls the logger's method with no receiver and throws: \<open>saveAs\<close> rejects with
  that \<open>TypeError\<close>, \<open>_pendingSaveContents\<close> keeps the text \<open>one two\<close>, and after
  will-save and the write nothing more is sent out, no \<open>addError\<close> among it. When the
  buffer is destroyed during the write, no untitled editor is opened either.
\<close>

theorem saveAs_failed_write_rejects:
  "saveAs (\<lambda>t. t) (Inl (RpcTimeoutError ''timed out'')) ''/remote/a.txt'' editedBuffer =
     (Inl (TypeError ''Cannot read property 'isLevelEnabled' of undefined''),
      editedBuffer\<lparr>pendingSaveContents := Str ''one two'',
        emitted := [WillSave ''/remote/a.txt'', FileWrite ''/remote/a.txt'' ''one two'']\<rparr>) \<and>
   pendingSaveContents
     (snd (saveAs (\<lambda>t. t) (Inl (RpcTimeoutError ''timed out'')) ''/remote/a.txt'' editedBuffer))
     \<noteq> Null \<and>
   fst (saveAs destroy (Inl (RpcTimeoutError ''timed out'')) ''/remote/a.txt'' editedBuffer) =
     Inl (TypeError ''Cannot read property 'isLevelEnabled' of undefined'') \<and>
   emitted (snd (saveAs destroy (Inl (RpcTimeoutError ''timed out'')) ''/remote/a.txt'' editedBuffer)) =
     [WillSave ''/remote/a.txt'', FileWrite ''/remote/a.txt'' ''one two'', Destroy]"
  by (simp add: saveAs_def saveAs_begin_def saveAs_resume_def saveAs_catch_def logFunction_def
      setPath_def getPath_def destroy_def emit_def Let_def editedBuffer_def cleanBuffer_def)

subsection \<open>The change handler\<close>

lemma onDidChange_begin_fst: "fst (onDidChange_begin s) = (cachedDiskContents s, saveID s)"
  by (simp add: onDidChange_begin_def emitModifiedStatusChanged_def Let_def)

lemma onDidChange_begin_snd:
  "snd (onDidChange_begin s) =
     (emit (ModifiedStatusChanged (isModified s)) s)\<lparr>conflict := conflict s \<or> isModified s\<rparr>"
  by (simp add: onDidChange_begin_def emitModifiedStatusChanged_def Let_def emit_def)

lemma onDidChange_read_ok:
  "onDidChange env (Inr c) s =
     (Inr (), onDidChange_resume (cachedDiskContents s, saveID s)
                ((onDidChange_awaited env s)\<lparr>cachedDiskContents := Str c, exists := True\<rparr>))"
proof -
  obtain k s1 where b: "onDidChange_begin s = (k, s1)" by (cases "onDidChange_begin s")
  with onDidChange_begin_fst [of s] have k: "k = (cachedDiskContents s, saveID s)" by simp
  from b have "onDidChange_awaited env s = env s1" by (simp add: onDidChange_awaited_def)
  with b k show ?thesis
    by (simp add: onDidChange_def updateCachedDiskContents_def super_updateCachedDiskContents_def)
qed

lemma onDidChange_read_failed:
  "onDidChange env (Inl e) s = (Inl e, (onDidChange_awaited env s)\<lparr>exists := False\<rparr>)"
proof -
  obtain k s1 where b: "onDidChange_begin s = (k, s1)" by (cases "onDidChange_begin s")
  then have "onDidChange_awaited env s = env s1" by (simp add: onDidChange_awaited_def)
  with b show ?thesis
    by (simp add: onDidChange_def updateCachedDiskContents_def super_updateCachedDiskContents_def)
qed

text \<open>
  C8. A failed refresh sets \<open>_exists\<close> to false and hands the read error on; the change
  handler leaves by that error, with \<open>conflict\<close> as it stood when the read came back
  (with nothing else going on: as its first half set it). A successful refresh sets
  \<open>_exists\<close> to true.
\<close>

theorem refresh_failure_propagates:
  "updateCachedDiskContents (Inl e) s = (Inl e, s\<lparr>exists := False\<rparr>) \<and>
   onDidChange env (Inl e) s = (Inl e, (onDidChange_awaited env s)\<lparr>exists := False\<rparr>) \<and>
   conflict (snd (onDidChange env (Inl e) s)) = conflict (onDidChange_awaited env s) \<and>
   conflict (snd (onDidChange (\<lambda>t. t) (Inl e) s)) = (conflict s \<or> isModified s) \<and>
   fst (updateCachedDiskContents (Inr c) s) = Inr () \<and>
   exists (snd (updateCachedDiskContents (Inr c) s)) \<and>
   exists (snd (onDidChange env (Inr c) s))"
proof -
  have "exists (snd (onDidChange env (Inr c) s))"
    by (simp add: onDidChange_read_ok onDidChange_resume_def reload_def)
  moreover have "conflict (snd (onDidChange (\<lambda>t. t) (Inl e) s)) = (conflict s \<or> isModified s)"
    by (simp add: onDidChange_read_failed onDidChange_awaited_def onDidChange_begin_snd)
  ultimately show ?thesis
    by (simp add: onDidChange_read_failed updateCachedDiskContents_def
        super_updateCachedDiskContents_def)
qed

theorem refresh_failure_propagates_witness:
  "onDidChange (\<lambda>t. t) (Inl (Error ''ENOENT'')) editedBuffer =
     (Inl (Error ''ENOENT''),
      editedBuffer\<lparr>conflict := True, exists := False, emitted := [ModifiedStatusChanged True]\<rparr>) \<and>
   exists (snd (onDidChange (\<lambda>t. t) (Inr ''three'') staleBuffer))"
  using refresh_failure_propagates [of "Error ''ENOENT''" editedBuffer "\<lambda>t. t" "''three''"]
        refresh_failure_propagates [of "Error ''ENOENT''" staleBuffer "\<lambda>t. t" "''three''"]
  by (simp add: onDidChange_awaited_def onDidChange_begin_def isModified_def
      emitModifiedStatusChanged_def emit_def Let_def staleBuffer_def editedBuffer_def cleanBuffer_def)

text \<open>
  C2. If \<open>_saveID\<close> after the refresh differs from the one recorded before it, the
  handler only clears \<open>conflict\<close>: beyond the refresh itself, the buffer is the one
  found when the read came back, whatever was read. No did-conflict is emitted and the
  text is not reloaded.
\<close>

theorem onDidChange_save_completed:
  assumes "saveID (onDidChange_awaited env s) \<noteq> saveID s"
  shows "onDidChange env (Inr c) s =
           (Inr (), (onDidChange_awaited env s)
                      \<lparr>cachedDiskContents := Str c, exists := True, conflict := False\<rparr>) \<and>
         \<not> conflict (snd (onDidChange env (Inr c) s)) \<and>
         emitted (snd (onDidChange env (Inr c) s)) = emitted (onDidChange_awaited env s) \<and>
         getText (snd (onDidChange env (Inr c) s)) = getText (onDidChange_awaited env s)"
  using assms by (simp add: onDidChange_read_ok onDidChange_resume_def)

theorem onDidChange_save_completed_witness:
  "saveID (onDidChange_awaited (saveAs_settle ''/remote/a.txt'' ''one two'' (Inr ())) editedBuffer)
     \<noteq> saveID editedBuffer \<and>
   onDidChange (saveAs_settle ''/remote/a.txt'' ''one two'' (Inr ())) (Inr ''three'') editedBuffer =
     (Inr (), editedBuffer\<lparr>cachedDiskContents := Str ''three'', saveID := 1,
        emitted := [ModifiedStatusChanged True, ModifiedStatusChanged False,
                    DidSave ''/remote/a.txt'', Track ''/remote/a.txt'' True]\<rparr>)"
  using onDidChange_save_completed [of "saveAs_settle ''/remote/a.txt'' ''one two'' (Inr ())" editedBuffer "''three''"]
  by (simp add: onDidChange_awaited_def onDidChange_begin_def saveAs_settle_def saveAs_resume_def
      saveAs_tail_def
      isModified_def emitModifiedStatusChanged_def emit_def Let_def editedBuffer_def cleanBuffer_def)

subsection \<open>The delete handler\<close>

text \<open>
  C4. On a delete notification \<open>_exists\<close> becomes false and
  \<open>wasModifiedBeforeRemove\<close> records whether the text differed from
  \<open>cachedDiskContents\<close>. With no difference, and \<open>shouldDestroyOnFileDelete\<close> absent
  or answering true, the buffer is destroyed and no refresh is started. With a
  difference, a refresh is started, the text is unchanged and the buffer is destroyed
  only if it already was.
\<close>

theorem onDidDelete_outcome:
  "\<not> exists (snd (onDidDelete s)) \<and>
   wasModifiedBeforeRemove (snd (onDidDelete s)) = (Str (getText s) \<noteq> cachedDiskContents s) \<and>
   (Str (getText s) = cachedDiskContents s \<and> shouldDestroyOnFileDelete s \<noteq> Some False \<longrightarrow>
      destroyed (snd (onDidDelete s)) \<and> \<not> fst (onDidDelete s)) \<and>
   (Str (getText s) \<noteq> cachedDiskContents s \<longrightarrow>
      fst (onDidDelete s) \<and>
      destroyed (snd (onDidDelete s)) = destroyed s \<and>
      getText (snd (onDidDelete s)) = getText s)"
  by (cases "shouldDestroyOnFileDelete s")
     (auto simp: onDidDelete_def maybeDestroy_def destroy_def emitModifiedStatusChanged_def Let_def)

theorem onDidDelete_outcome_witness:
  "(Str (getText cleanBuffer) = cachedDiskContents cleanBuffer \<and>
    shouldDestroyOnFileDelete cleanBuffer \<noteq> Some False \<and>
    destroyed (snd (onDidDelete cleanBuffer)) \<and> \<not> fst (onDidDelete cleanBuffer) \<and>
    \<not> wasModifiedBeforeRemove (snd (onDidDelete cleanBuffer))) \<and>
   (Str (getText editedBuffer) \<noteq> cachedDiskContents editedBuffer \<and>
    fst (onDidDelete editedBuffer) \<and>
    \<not> destroyed (snd (onDidDelete editedBuffer)) \<and>
    getText (snd (onDidDelete editedBuffer)) = ''one two'' \<and>
    wasModifiedBeforeRemove (snd (onDidDelete editedBuffer)) \<and>
    \<not> exists (snd (onDidDelete editedBuffer)))"
  using onDidDelete_outcome [of cleanBuffer] onDidDelete_outcome [of editedBuffer]
  by (simp add: editedBuffer_def cleanBuffer_def)

text \<open>
  For a loaded buffer bound to a file that is believed to exist, \<open>_isModified\<close> is the
  comparison of the text with \<open>cachedDiskContents\<close>.
\<close>

lemma isModified_bound:
  "loaded s \<Longrightarrow> file' s \<noteq> None \<Longrightarrow> exists s \<Longrightarrow>
   isModified s = (Str (getText s) \<noteq> cachedDiskContents s)"
  by (auto simp: isModified_def split: option.splits)

text \<open>
  C1. A clean buffer gets a change notification whose read fails, which clears
  \<open>_exists\<close>; then the text is edited. This is \<open>staleBuffer\<close>, up to the trace. It
  has unsaved edits, yet \<open>_isModified\<close> answers false, because \<open>_exists\<close> and
  \<open>wasModifiedBeforeRemove\<close> are false. On the next change notification
  \<open>conflict\<close> stays false, a remote change that no short-circuit explains is read,
  and the handler reloads over the edits without a did-conflict. The delete handler,
  which compares the text with \<open>cachedDiskContents\<close> itself, sees the same buffer as
  modified.
\<close>

theorem onDidChange_overwrites_edits:
  "(setText ''one two'' (snd (onDidChange (\<lambda>t. t) (Inl (Error ''read failed'')) cleanBuffer)))
     \<lparr>emitted := []\<rparr> = staleBuffer \<and>
   Str (getText staleBuffer) \<noteq> cachedDiskContents staleBuffer \<and>
   \<not> isModified staleBuffer \<and>
   wasModifiedBeforeRemove (snd (onDidDelete staleBuffer)) \<and>
   onDidChange (\<lambda>t. t) (Inr ''three'') staleBuffer =
     (Inr (), staleBuffer\<lparr>getText := ''three'', cachedDiskContents := Str ''three'', exists := True,
                emitted := [ModifiedStatusChanged False, Reload]\<rparr>) \<and>
   saveID (onDidChange_awaited (\<lambda>t. t) staleBuffer) = saveID staleBuffer \<and>
   cachedDiskContents staleBuffer \<noteq> Str ''three'' \<and>
   pendingSaveContents (onDidChange_awaited (\<lambda>t. t) staleBuffer) \<noteq> Str ''three'' \<and>
   DidConflict \<notin> set (emitted (snd (onDidChange (\<lambda>t. t) (Inr ''three'') staleBuffer))) \<and>
   getText (snd (onDidChange (\<lambda>t. t) (Inr ''three'') staleBuffer)) \<noteq> getText staleBuffer"
  by (simp add: onDidChange_read_ok onDidChange_read_failed onDidChange_resume_def
      onDidChange_awaited_def onDidChange_begin_snd isModified_def reload_def emit_def
      setText_def onDidDelete_def Let_def
      staleBuffer_def editedBuffer_def cleanBuffer_def)

text \<open>
  What the second half of the handler does keep: on a buffer whose \<open>conflict\<close> is
  raised it never reloads, so the text stays.
\<close>

lemma onDidChange_resume_keeps_text_in_conflict:
  "conflict t \<Longrightarrow> getText (onDidChange_resume k t) = getText t"
  by (cases k) (simp add: onDidChange_resume_def)

subsection \<open>setTextViaDiff\<close>

lemma countOccurrences_replicate:
  "countOccurrences (replicate n c @ xs) c = n + countOccurrences xs c"
  by (induction n) simp_all

text \<open>
  C5. The incoming text is measured by its line feeds, not by its lines: a text of
  10001 lines with 10000 line feeds, set on a one-line buffer, exceeds the limit of
  10000 lines and still goes through the diffing \<open>setTextViaDiff\<close> of the base class,
  not through \<open>setText\<close>.
\<close>

theorem setTextViaDiff_incoming_boundary:
  "lineCount manyLines = 10001 \<and>
   DIFF_LINE_LIMIT < lineCount manyLines \<and>
   getLineCount cleanBuffer = 1 \<and>
   setTextViaDiff manyLines cleanBuffer = super_setTextViaDiff manyLines cleanBuffer \<and>
   setTextViaDiff manyLines cleanBuffer \<noteq> setText manyLines cleanBuffer"
proof -
  have n: "countOccurrences manyLines (CHR 0x0A) = 10000"
    unfolding manyLines_def by (simp add: countOccurrences_replicate)
  have g: "getLineCount cleanBuffer = 1"
    by (simp add: getLineCount_def lineCount_def cleanBuffer_def)
  have d: "setTextViaDiff manyLines cleanBuffer = super_setTextViaDiff manyLines cleanBuffer"
    by (simp add: setTextViaDiff_def n g DIFF_LINE_LIMIT_def)
  have "emitted (super_setTextViaDiff manyLines cleanBuffer) \<noteq> emitted (setText manyLines cleanBuffer)"
    by (simp add: super_setTextViaDiff_def setText_def)
  then have "super_setTextViaDiff manyLines cleanBuffer \<noteq> setText manyLines cleanBuffer"
    by auto
  with n g d show ?thesis by (simp add: lineCount_def DIFF_LINE_LIMIT_def)
qed

text \<open>
  The rest of C5 holds: over the limit on either test the text is set wholesale, and a
  buffer of 10001 lines that receives five lines ends with five lines.
\<close>

lemma setTextViaDiff_over_limit:
  "DIFF_LINE_LIMIT < getLineCount s \<or> DIFF_LINE_LIMIT < countOccurrences newText (CHR 0x0A) \<Longrightarrow>
   setTextViaDiff newText s = setText newText s"
  by (auto simp: setTextViaDiff_def)

lemma setTextViaDiff_text: "getText (setTextViaDiff newText s) = newText"
  by (simp add: setTextViaDiff_def setText_def super_setTextViaDiff_def)

lemma setTextViaDiff_long_buffer:
  "getLineCount s = 10001 \<Longrightarrow> lineCount newText = 5 \<Longrightarrow>
   setTextViaDiff newText s = setText newText s \<and> getLineCount (setTextViaDiff newText s) = 5"
  by (simp add: setTextViaDiff_def DIFF_LINE_LIMIT_def getLineCount_def setText_def)


section \<open>Properties of the directory cache\<close>

declare walk.simps [simp del] nearest.simps [simp del]

lemma recordAll_other: "d \<notin> set ds \<Longrightarrow> recordAll ds ans c d = c d"
  by (induction ds arbitrary: c) auto

lemma recordAll_in: "d \<in> set ds \<Longrightarrow> recordAll ds ans c d = Some ans"
proof (induction ds arbitrary: c)
  case Nil
  then show ?case by simp
next
  case (Cons x xs)
  show ?case
  proof (cases "d \<in> set xs")
    case True
    then show ?thesis by (simp add: Cons.IH)
  next
    case False
    with Cons.prems have "x = d" by simp
    with False show ?thesis by (simp add: recordAll_other)
  qed
qed

lemma cacheConsistent_recordAll:
  "cacheConsistent fs c \<Longrightarrow> \<forall>v\<in>set vs. nearest fs v = ans \<Longrightarrow> cacheConsistent fs (recordAll vs ans c)"
  unfolding cacheConsistent_def
  by (metis recordAll_other recordAll_in option.inject)

lemma walk_correct:
  "cacheConsistent fs c \<Longrightarrow> \<forall>v\<in>set visited. nearest fs v = nearest fs dir \<Longrightarrow>
   fst (walk fs c dir visited) = nearest fs dir \<and> cacheConsistent fs (snd (walk fs c dir visited))"
proof (induction fs c dir visited rule: walk.induct)
  case (1 fs c dir visited)
  show ?case
  proof (cases "c dir \<noteq> None")
    case True
    then obtain ans where a: "c dir = Some ans" by auto
    with "1.prems"(1) have "ans = nearest fs dir" by (simp add: cacheConsistent_def)
    with a "1.prems"(1) show ?thesis by (simp add: walk.simps[of fs c dir])
  next
    case nohit: False
    show ?thesis
    proof (cases "hasMarker fs dir")
      case True
      then have n: "nearest fs dir = Some dir" by (simp add: nearest.simps[of fs dir])
      with "1.prems" have "cacheConsistent fs (recordAll (dir # visited) (Some dir) c)"
        by (intro cacheConsistent_recordAll) auto
      with nohit True n show ?thesis by (simp add: walk.simps[of fs c dir])
    next
      case nomark: False
      show ?thesis
      proof (cases "dir = []")
        case True
        with nomark have n: "nearest fs dir = None" by (simp add: nearest.simps[of fs "[]"])
        with "1.prems" have "cacheConsistent fs (recordAll (dir # visited) None c)"
          by (intro cacheConsistent_recordAll) auto
        with nohit nomark True n show ?thesis by (simp add: walk.simps[of fs c "[]"])
      next
        case False
        with nomark have n: "nearest fs dir = nearest fs (butlast dir)"
          by (simp add: nearest.simps[of fs dir])
        with "1.prems"(2) have "\<forall>v\<in>set (dir # visited). nearest fs v = nearest fs (butlast dir)"
          by simp
        from "1.IH"[OF _ nomark False "1.prems"(1) this] nohit
        have "fst (walk fs c (butlast dir) (dir # visited)) = nearest fs (butlast dir) \<and>
              cacheConsistent fs (snd (walk fs c (butlast dir) (dir # visited)))" by simp
        with nohit nomark False n show ?thesis by (simp add: walk.simps[of fs c dir])
      qed
    qed
  qed
qed

lemma nearest_append:
  "hasMarker fs a \<Longrightarrow> \<forall>k\<in>{1..length rest}. \<not> hasMarker fs (a @ take k rest) \<Longrightarrow>
   nearest fs (a @ rest) = Some a"
proof (induction rest rule: rev_induct)
  case Nil
  then show ?case by (simp add: nearest.simps[of fs a])
next
  case (snoc y ys)
  have "\<forall>k\<in>{1..length ys}. \<not> hasMarker fs (a @ take k ys)"
  proof
    fix k assume k: "k \<in> {1..length ys}"
    then have "k \<in> {1..length (ys @ [y])}" by simp
    with snoc.prems(2) have "\<not> hasMarker fs (a @ take k (ys @ [y]))" by blast
    moreover from k have "take k (ys @ [y]) = take k ys" by simp
    ultimately show "\<not> hasMarker fs (a @ take k ys)" by simp
  qed
  with snoc have ih: "nearest fs (a @ ys) = Some a" by simp
  from snoc.prems(2) have "\<not> hasMarker fs (a @ take (length (ys @ [y])) (ys @ [y]))"
    by (metis atLeastAtMost_iff le_refl length_append_singleton le_add1 plus_1_eq_Suc)
  then have nm: "\<not> hasMarker fs (a @ ys @ [y])" by simp
  have "butlast (a @ ys @ [y]) = a @ ys" by (simp add: butlast_append)
  with nm ih show ?case by (simp add: nearest.simps[of fs "a @ ys @ [y]"])
qed

text \<open>
  C9, as stated, fails: with the marker file in \<open>/a\<close> and in \<open>/a/b\<close>, the lookup
  from \<open>/a/b/c\<close> answers \<open>/a/b\<close>, the nearest one, not \<open>/a\<close>.
\<close>

theorem getConfigDir_nearer_marker_counterexample:
  "hasMarker nestedMarkers [''a''] \<and>
   fst (getConfigDir nestedMarkers Map.empty [''a'', ''b'', ''c'']) = Some [''a'', ''b''] \<and>
   fst (getConfigDir nestedMarkers Map.empty [''a'', ''b'', ''c'']) \<noteq> Some [''a'']"
  by (simp add: getConfigDir_def walk.simps hasMarker_def isFile_def nestedMarkers_def)

text \<open>
  C9, amended. On a cache consistent with the filesystem, if \<open>a\<close> contains the marker
  file and no directory from the start directory \<open>a @ rest\<close> up to, but not including,
  \<open>a\<close> contains it, the lookup from \<open>a @ rest\<close> answers \<open>a\<close> and leaves a
  consistent cache. A start path that names a file in a directory gets the lookup of
  that directory.
\<close>

theorem getConfigDir_nearest_marker:
  assumes "cacheConsistent fs c"
      and "hasMarker fs a"
      and "\<forall>k\<in>{1..length rest}. \<not> hasMarker fs (a @ take k rest)"
      and "\<not> isFile fs (a @ rest)"
  shows "fst (getConfigDir fs c (a @ rest)) = Some a \<and>
         cacheConsistent fs (snd (getConfigDir fs c (a @ rest))) \<and>
         (isFile fs p \<and> \<not> isFile fs (butlast p) \<longrightarrow>
            getConfigDir fs c p = getConfigDir fs c (butlast p))"
proof -
  from assms(2,3) have n: "nearest fs (a @ rest) = Some a" by (rule nearest_append)
  have "\<forall>v\<in>set []. nearest fs v = nearest fs (a @ rest)" by simp
  with assms(1) have "fst (walk fs c (a @ rest) []) = nearest fs (a @ rest) \<and>
      cacheConsistent fs (snd (walk fs c (a @ rest) []))"
    by (rule walk_correct)
  with n assms(4) show ?thesis by (simp add: getConfigDir_def)
qed

theorem getConfigDir_nearest_marker_witness:
  "cacheConsistent oneMarker Map.empty \<and>
   hasMarker oneMarker [''a''] \<and>
   \<not> hasMarker oneMarker [''a'', ''b''] \<and>
   \<not> hasMarker oneMarker [''a'', ''b'', ''c''] \<and>
   \<not> isFile oneMarker ([''a''] @ [''b'', ''c'']) \<and>
   fst (getConfigDir oneMarker Map.empty ([''a''] @ [''b'', ''c''])) = Some [''a''] \<and>
   fst (getConfigDir oneMarker (snd (getConfigDir oneMarker Map.empty ([''a''] @ [''b'', ''c''])))
          ([''a''] @ [''b''])) = Some [''a''] \<and>
   isFile oneMarker [''a'', ''b'', ''f''] \<and> \<not> isFile oneMarker (butlast [''a'', ''b'', ''f'']) \<and>
   getConfigDir oneMarker Map.empty [''a'', ''b'', ''f''] =
     getConfigDir oneMarker Map.empty (butlast [''a'', ''b'', ''f''])"
proof -
  have h1: "cacheConsistent oneMarker Map.empty" by (simp add: cacheConsistent_def)
  have h2: "hasMarker oneMarker [''a'']" by (simp add: hasMarker_def oneMarker_def)
  have h3: "\<forall>k\<in>{1..length [''b'', ''c'']}. \<not> hasMarker oneMarker ([''a''] @ take k [''b'', ''c''])"
    by (simp add: hasMarker_def oneMarker_def)
  have h4: "\<not> isFile oneMarker ([''a''] @ [''b'', ''c''])" by (simp add: isFile_def oneMarker_def)
  have h5: "isFile oneMarker [''a'', ''b'', ''f''] \<and> \<not> isFile oneMarker (butlast [''a'', ''b'', ''f''])"
    by (simp add: isFile_def oneMarker_def)
  have h6: "\<not> hasMarker oneMarker [''a'', ''b''] \<and> \<not> hasMarker oneMarker [''a'', ''b'', ''c'']"
    by (simp add: hasMarker_def oneMarker_def)
  note first = getConfigDir_nearest_marker [OF h1 h2 h3 h4, of "[''a'', ''b'', ''f'']"]
  then have h7: "cacheConsistent oneMarker
      (snd (getConfigDir oneMarker Map.empty ([''a''] @ [''b'', ''c''])))" by simp
  have h8: "\<forall>k\<in>{1..length [''b'']}. \<not> hasMarker oneMarker ([''a''] @ take k [''b''])"
    by (simp add: hasMarker_def oneMarker_def)
  have h9: "\<not> isFile oneMarker ([''a''] @ [''b''])" by (simp add: isFile_def oneMarker_def)
  note second = getConfigDir_nearest_marker [OF h7 h2 h8 h9, of "[]"]
  from first second h1 h2 h4 h5 h6 show ?thesis by simp
qed

text \<open>
  The repository's test of \<open>ConfigCache\<close>, replayed on one cache: the folder without a
  marker above it, the root folder, a file in it, a nested folder, a file in that.
\<close>

lemma getConfigDir_test_replay:
  "(let c0 = Map.empty;
        (r1, c1) = getConfigDir fixtures c0 [''fixtures''];
        (r2, c2) = getConfigDir fixtures c1 [''fixtures'', ''ConfigCache''];
        (r3, c3) = getConfigDir fixtures c2 [''fixtures'', ''ConfigCache'', ''file''];
        (r4, c4) = getConfigDir fixtures c3 [''fixtures'', ''ConfigCache'', ''testFolder''];
        (r5, c5) = getConfigDir fixtures c4 [''fixtures'', ''ConfigCache'', ''testFolder'', ''file'']
    in [r1, r2, r3, r4, r5]) =
   [None, Some [''fixtures'', ''ConfigCache''], Some [''fixtures'', ''ConfigCache''],
    Some [''fixtures'', ''ConfigCache''], Some [''fixtures'', ''ConfigCache'']]"
  by (simp add: getConfigDir_def walk.simps hasMarker_def isFile_def fixtures_def)

end
